theory Spec2Isabelle
  imports Complex_Main "HOL-Library.Word" "HOL-Library.AList"
begin

unbundle bit_operations_syntax

section \<open>Base64Decoder\<close>

text \<open>
  JavaScript strings are modelled as \<open>string\<close>, one \<open>char\<close> per code unit. The numbers
  of \<open>decode\<close> are modelled exactly: the character indices \<open>enc1 .. enc4\<close> as \<open>int\<close>
  (they lie between \<open>-1\<close> and \<open>64\<close>, so the 32-bit shifts never wrap), the possibly
  fractional byte count \<open>input.length / 4 * 3\<close> as a rational, and the bytes of the
  \<open>Uint8Array\<close> as \<open>8 word\<close>.
\<close>

type_synonym byte = "8 word"

definition keyStr :: string where
  "keyStr = ''ABCDEFGHIJKLMNOPQRSTUVWXYZabcdefghijklmnopqrstuvwxyz0123456789+/=''"

text \<open>\<open>String.prototype.charAt\<close>: the empty string past the end.\<close>

definition charAt :: "string \<Rightarrow> nat \<Rightarrow> string" where
  "charAt s i = (if i < length s then [s ! i] else [])"

text \<open>\<open>String.prototype.indexOf\<close>: the first position where the pattern starts,
  \<open>-1\<close> when there is none; the empty pattern is found at position 0.\<close>

fun indexOf_from :: "string \<Rightarrow> string \<Rightarrow> nat \<Rightarrow> int" where
  "indexOf_from [] pat k = (if pat = [] then int k else - 1)"
| "indexOf_from (c # cs) pat k =
     (if take (length pat) (c # cs) = pat then int k else indexOf_from cs pat (Suc k))"

definition indexOf :: "string \<Rightarrow> string \<Rightarrow> int" where
  "indexOf s pat = indexOf_from s pat 0"

text \<open>The character class \<open>[A-Za-z0-9+/=]\<close> of the regular expression in \<open>decode\<close>.\<close>

definition in_class :: "char \<Rightarrow> bool" where
  "in_class c =
     (let n = (of_char c :: nat)
      in (65 \<le> n \<and> n \<le> 90) \<or> (97 \<le> n \<and> n \<le> 122) \<or> (48 \<le> n \<and> n \<le> 57)
         \<or> c = CHR ''+'' \<or> c = CHR ''/'' \<or> c = CHR ''='')"

text \<open>\<open>input.replace(/[^A-Za-z0-9+/=]/g, "")\<close>\<close>

definition strip_invalid :: "string \<Rightarrow> string" where
  "strip_invalid input = filter in_class input"

text \<open>\<open>removePaddingChars\<close>: the loop walks down from the last character and returns the
  prefix ending at the first character that is not \<open>=\<close>; when it finds none it returns the
  input unchanged.\<close>

fun removePaddingChars_loop :: "string \<Rightarrow> nat \<Rightarrow> string" where
  "removePaddingChars_loop input 0 = input"
| "removePaddingChars_loop input (Suc i) =
     (if charAt input i \<noteq> ''='' then take (i + 1) input
      else removePaddingChars_loop input i)"

definition removePaddingChars :: "string \<Rightarrow> string" where
  "removePaddingChars input = removePaddingChars_loop input (length input)"

text \<open>A store into a \<open>Uint8Array\<close>: the value is reduced modulo 256, and a store past
  the end is discarded.\<close>

definition store :: "byte list \<Rightarrow> nat \<Rightarrow> int \<Rightarrow> byte list" where
  "store uarray i v = (if i < length uarray then uarray[i := word_of_int v] else uarray)"

definition chr1_of :: "int \<Rightarrow> int \<Rightarrow> int" where
  "chr1_of enc1 enc2 = push_bit 2 enc1 OR drop_bit 4 enc2"

definition chr2_of :: "int \<Rightarrow> int \<Rightarrow> int" where
  "chr2_of enc2 enc3 = push_bit 4 (enc2 AND 15) OR drop_bit 2 enc3"

definition chr3_of :: "int \<Rightarrow> int \<Rightarrow> int" where
  "chr3_of enc3 enc4 = push_bit 6 (enc3 AND 3) OR enc4"

text \<open>The body of the \<open>for\<close> loop of \<open>decode\<close>, for the group that starts at input
  position \<open>j\<close> and output position \<open>i\<close>: first the stores it executes, in order, as
  pairs of index and value, then their effect on the array.\<close>

definition symbol_index :: "string \<Rightarrow> nat \<Rightarrow> int" where
  "symbol_index input j = indexOf keyStr (charAt input j)"

definition group_stores :: "string \<Rightarrow> nat \<Rightarrow> nat \<Rightarrow> (nat \<times> int) list" where
  "group_stores input i j =
     (let enc1 = symbol_index input j;
          enc2 = symbol_index input (j + 1);
          enc3 = symbol_index input (j + 2);
          enc4 = symbol_index input (j + 3);
          chr1 = chr1_of enc1 enc2;
          chr2 = chr2_of enc2 enc3;
          chr3 = chr3_of enc3 enc4
      in [(i, chr1)]
         @ (if enc3 \<noteq> 64 then [(i + 1, chr2)] else [])
         @ (if enc4 \<noteq> 64 then [(i + 2, chr3)] else []))"

definition decode_group :: "string \<Rightarrow> nat \<Rightarrow> nat \<Rightarrow> byte list \<Rightarrow> byte list" where
  "decode_group input i j uarray =
     fold (\<lambda>(k, v) u. store u k v) (group_stores input i j) uarray"

function decode_loop :: "string \<Rightarrow> rat \<Rightarrow> nat \<Rightarrow> nat \<Rightarrow> byte list \<Rightarrow> byte list" where
  "decode_loop input bytes i j uarray =
     (if of_nat i < bytes
      then decode_loop input bytes (i + 3) (j + 4) (decode_group input i j uarray)
      else uarray)"
  by pat_completeness auto
termination
proof (relation "measure (\<lambda>(input, bytes, i, j, uarray). nat \<lceil>bytes\<rceil> - i)")
  show "wf (measure (\<lambda>(input, bytes, i, j, uarray). nat \<lceil>bytes\<rceil> - i))"
    by simp
next
  fix input :: string and bytes :: rat and i j :: nat and uarray :: "byte list"
  assume "of_nat i < bytes"
  then have "of_int (int i) < bytes"
    by simp
  then have "int i < \<lceil>bytes\<rceil>"
    by (simp only: less_ceiling_iff)
  then have "i < nat \<lceil>bytes\<rceil>"
    by linarith
  then show "((input, bytes, i + 3, j + 4, decode_group input i j uarray),
              (input, bytes, i, j, uarray))
             \<in> measure (\<lambda>(input, bytes, i, j, uarray). nat \<lceil>bytes\<rceil> - i)"
    by simp
qed

declare decode_loop.simps [simp del]

text \<open>\<open>decode\<close>: \<open>new ArrayBuffer(bytes)\<close> truncates a fractional length and fills the
  buffer with zeros.\<close>

definition decode :: "string \<Rightarrow> byte list" where
  "decode input0 =
     (let input = removePaddingChars (strip_invalid input0);
          bytes = (of_nat (length input) / 4 * 3 :: rat);
          uarray = replicate (nat \<lfloor>bytes\<rfloor>) 0
      in decode_loop input bytes 0 0 uarray)"

text \<open>Two notions used to state the properties of \<open>decode\<close>. The number of padding
  symbols at the end of a string, and the byte that a group-wise reading of the input
  prescribes for output position \<open>k\<close>: position \<open>k\<close> belongs to group \<open>k div 3\<close>, whose
  symbols start at input position \<open>4 * (k div 3)\<close>; a byte whose store is skipped keeps
  the initial value 0.\<close>

definition trailing_padding :: "string \<Rightarrow> nat" where
  "trailing_padding s = length (takeWhile (\<lambda>c. c = CHR ''='') (rev s))"

definition decoded_byte :: "string \<Rightarrow> nat \<Rightarrow> byte" where
  "decoded_byte input k =
     (let j = 4 * (k div 3);
          enc1 = symbol_index input j;
          enc2 = symbol_index input (j + 1);
          enc3 = symbol_index input (j + 2);
          enc4 = symbol_index input (j + 3)
      in if k mod 3 = 0 then word_of_int (chr1_of enc1 enc2)
         else if k mod 3 = 1
           then (if enc3 \<noteq> 64 then word_of_int (chr2_of enc2 enc3) else 0)
         else (if enc4 \<noteq> 64 then word_of_int (chr3_of enc3 enc4) else 0))"

section \<open>Errors\<close>

text \<open>
  An exception is a value. A method that can throw returns the exception, if any, paired
  with the state at that point: what it assigned before throwing stays assigned.
  \<open>TypeError\<close> is a property access on \<open>null\<close> or \<open>undefined\<close>; \<open>HttpStatus\<close> is the
  \<open>Error\<close> that \<open>fetchJSON\<close> throws for a response that is not ok; \<open>NetworkError\<close> and
  \<open>SyntaxError\<close> are the rejections of \<open>fetch\<close> and of \<open>response.json()\<close>.
\<close>

datatype error = TypeError | HttpStatus nat | NetworkError | SyntaxError

type_synonym 's outcome = "error option \<times> 's"

section \<open>AudioPlayer\<close>

text \<open>
  The player owns the buffer source nodes it has created. \<open>nodes\<close> is the audio graph:
  every node ever created, in creation order, each connected to the one gain node. A
  node records the buffer it plays, the time given to \<open>start\<close> and the time given to
  \<open>stop\<close>, if \<open>stop\<close> was called; \<open>node_id\<close> is the id for which \<open>play\<close> created it (the
  source keeps this only as the key in \<open>sources\<close>; the model keeps it on the node to be
  able to speak of the voices of a note). \<open>sources\<close> is the object \<open>this.sources\<close>, an
  association list in insertion order from ids to nodes, a node being referred to by its
  position in \<open>nodes\<close>. Times are the numbers of the audio clock, modelled as rationals.
  Assigning the buffer is a plain field update: the buffer is whatever the caller passes.
\<close>

record 'b source_node =
  node_id :: string
  node_buffer :: 'b
  start_when :: rat
  stop_when :: "rat option"

record 'b AudioPlayer =
  currentTime :: rat
  gain :: rat
  nodes :: "'b source_node list"
  sources :: "(string \<times> nat) list"
  stopDelay :: rat

text \<open>The constructor; its argument is \<open>opts.stopDelay\<close>, \<open>None\<close> when it is undefined.
  \<open>opts.stopDelay || 0.3\<close> replaces an undefined and a zero delay by the default. The
  clock of a new audio context starts at 0.\<close>

definition new_AudioPlayer :: "rat option \<Rightarrow> 'b AudioPlayer" where
  "new_AudioPlayer opts_stopDelay =
     \<lparr>currentTime = 0, gain = 10, nodes = [], sources = [],
      stopDelay = (case opts_stopDelay of
                     None \<Rightarrow> 3 / 10
                   | Some d \<Rightarrow> if d = 0 then 3 / 10 else d)\<rparr>"

definition play :: "string \<Rightarrow> 'b \<Rightarrow> 'b AudioPlayer \<Rightarrow> 'b AudioPlayer" where
  "play nid buffer p =
     (if map_of (sources p) nid \<noteq> None then p
      else p\<lparr>nodes := nodes p @ [\<lparr>node_id = nid, node_buffer = buffer,
                                    start_when = currentTime p, stop_when = None\<rparr>],
             sources := sources p @ [(nid, length (nodes p))]\<rparr>)"

definition pause :: "string \<Rightarrow> 'b AudioPlayer \<Rightarrow> 'b AudioPlayer" where
  "pause nid p =
     (case map_of (sources p) nid of
        None \<Rightarrow> p
      | Some n \<Rightarrow>
          p\<lparr>nodes := (nodes p)[n := (nodes p ! n)\<lparr>stop_when := Some (currentTime p + stopDelay p)\<rparr>],
            sources := AList.delete nid (sources p)\<rparr>)"

text \<open>\<open>pauseAll\<close>: the \<open>for ... in\<close> loop visits the ids that \<open>this.sources\<close> holds when
  it starts; each \<open>pause\<close> deletes only the id it is called for.\<close>

definition pauseAll :: "'b AudioPlayer \<Rightarrow> 'b AudioPlayer" where
  "pauseAll p = fold pause (map fst (sources p)) p"





text \<open>What \<open>stop\<close> at time \<open>t\<close> makes of a node.\<close>

definition stopped_at :: "rat \<Rightarrow> 'b source_node \<Rightarrow> 'b source_node" where
  "stopped_at t v = v\<lparr>stop_when := Some t\<rparr>"


text \<open>The consistency of \<open>sources\<close> with the graph: it has one entry for each id, each
  entry refers to a node of that id on which \<open>stop\<close> has not been called, and each such
  node has its entry.\<close>

definition player_ok :: "'b AudioPlayer \<Rightarrow> bool" where
  "player_ok p \<longleftrightarrow>
     distinct (map fst (sources p))
     \<and> list_all (\<lambda>(k, n). n < length (nodes p) \<and> node_id (nodes p ! n) = k
                          \<and> stop_when (nodes p ! n) = None) (sources p)
     \<and> list_all (\<lambda>n. stop_when (nodes p ! n) = None
                       \<longrightarrow> map_of (sources p) (node_id (nodes p ! n)) = Some n)
         [0..<length (nodes p)]"

section \<open>Keyboard\<close>

text \<open>
  \<open>keys\<close> maps a key code to its element, an element being represented by whether its
  class list contains \<open>key-pressed\<close>; \<open>held\<close> is the object \<open>this._\<close>, in insertion order.
\<close>

record Keyboard =
  keys :: "string \<rightharpoonup> bool"
  held :: "(string \<times> bool) list"

definition press :: "string \<Rightarrow> Keyboard \<Rightarrow> Keyboard outcome" where
  "press code kb =
     (if map_of (held kb) code = Some True then (None, kb)
      else
        let kb1 = kb\<lparr>held := AList.update code True (held kb)\<rparr>
        in case keys kb1 code of
             None \<Rightarrow> (Some TypeError, kb1)
           | Some _ \<Rightarrow> (None, kb1\<lparr>keys := (keys kb1)(code \<mapsto> True)\<rparr>))"

definition release :: "string \<Rightarrow> Keyboard \<Rightarrow> Keyboard outcome" where
  "release code kb =
     (if map_of (held kb) code \<noteq> Some True then (None, kb)
      else
        let kb1 = kb\<lparr>held := AList.update code False (held kb)\<rparr>
        in case keys kb1 code of
             None \<Rightarrow> (Some TypeError, kb1)
           | Some _ \<Rightarrow>
               (None, kb1\<lparr>keys := (keys kb1)(code \<mapsto> False),
                          held := AList.delete code (held kb1)\<rparr>))"

fun releaseAll_loop :: "string list \<Rightarrow> Keyboard \<Rightarrow> Keyboard outcome" where
  "releaseAll_loop [] kb = (None, kb)"
| "releaseAll_loop (code # codes) kb =
     (case release code kb of
        (None, kb') \<Rightarrow> releaseAll_loop codes kb'
      | (Some e, kb') \<Rightarrow> (Some e, kb'))"

definition releaseAll :: "Keyboard \<Rightarrow> Keyboard outcome" where
  "releaseAll kb = releaseAll_loop (map fst (held kb)) kb"

text \<open>The consistency of the keyboard: \<open>held\<close> has one entry for each code it holds, the
  entry is \<open>true\<close>, and the code has its element.\<close>

definition keyboard_ok :: "Keyboard \<Rightarrow> bool" where
  "keyboard_ok kb \<longleftrightarrow>
     distinct (map fst (held kb))
     \<and> list_all (\<lambda>(c, b). b \<and> keys kb c \<noteq> None) (held kb)"

section \<open>Logger\<close>

text \<open>
  A log token is a string, or \<open>None\<close> for \<open>undefined\<close> (the note has no entry in the
  display table). \<open>checked\<close> is the state of the switch check box, taken to start
  checked, and \<open>textarea\<close> the text shown. The methods that render take the output mode
  of the settings.
\<close>

type_synonym token = "string option"

record Logger =
  enabled :: bool
  checked :: bool
  tokens :: "token list"
  textarea :: string

definition token_text :: "token \<Rightarrow> string" where
  "token_text t = (case t of None \<Rightarrow> [] | Some s \<Rightarrow> s)"

fun join :: "string \<Rightarrow> token list \<Rightarrow> string" where
  "join sep [] = []"
| "join sep [t] = token_text t"
| "join sep (t # u # ts) = token_text t @ sep @ join sep (u # ts)"

definition log_join :: "string \<Rightarrow> Logger \<Rightarrow> string" where
  "log_join out lg = join (if out = ''digit'' then [] else '' '') (tokens lg)"

definition log_render :: "string \<Rightarrow> Logger \<Rightarrow> Logger" where
  "log_render out lg = lg\<lparr>textarea := log_join out lg @ ''_''\<rparr>"

text \<open>\<open>switch\<close>: without an event it flips the check box only; with one it takes the state
  of the check box that the user has just set.\<close>

definition log_switch :: "bool option \<Rightarrow> Logger \<Rightarrow> Logger" where
  "log_switch event lg =
     (case event of
        None \<Rightarrow> lg\<lparr>checked := \<not> checked lg\<rparr>
      | Some c \<Rightarrow> lg\<lparr>checked := c, enabled := c\<rparr>)"

definition log_space :: "string \<Rightarrow> Logger \<Rightarrow> Logger" where
  "log_space out lg =
     (if enabled lg then log_render out (lg\<lparr>tokens := tokens lg @ [Some '' '']\<rparr>) else lg)"

definition log_return :: "string \<Rightarrow> Logger \<Rightarrow> Logger" where
  "log_return out lg =
     (if enabled lg then log_render out (lg\<lparr>tokens := tokens lg @ [Some [CHR 0x0A]]\<rparr>) else lg)"

definition log_delete :: "string \<Rightarrow> Logger \<Rightarrow> Logger" where
  "log_delete out lg =
     (if enabled lg then log_render out (lg\<lparr>tokens := butlast (tokens lg)\<rparr>) else lg)"


definition log_insert :: "string \<Rightarrow> token \<Rightarrow> Logger \<Rightarrow> Logger" where
  "log_insert out text lg =
     (if enabled lg then log_render out (lg\<lparr>tokens := tokens lg @ [text]\<rparr>) else lg)"

section \<open>Assets\<close>

text \<open>
  An asset holds the parsed JSON once it is loaded, and the error once loading has
  failed. \<open>promise\<close> is the state of the promise that \<open>loadAsync\<close> returned, \<open>None\<close>
  before \<open>loadAsync\<close> is called. The JSON of each asset is typed by the format its
  readers expect. An entry of the sample bank is the encoded string of the manifest
  until the decoded audio buffer replaces it; the type \<open>'a\<close> of audio buffers is left
  open.
\<close>

datatype settle = Pending | Fulfilled | Rejected error

record 'j asset =
  path :: string
  json :: "'j option"
  error :: "error option"
  promise :: "settle option"

definition new_asset :: "string \<Rightarrow> 'j asset" where
  "new_asset p = \<lparr>path = p, json = None, error = None, promise = None\<rparr>"

datatype 'a sample = Encoded string | Decoded 'a

type_synonym keyboard_layout = "(string \<times> string) list list"

text \<open>What \<open>window.fetch\<close> delivers: no response at all, or a response with its \<open>ok\<close>
  flag, its status and its body, \<open>None\<close> when the body does not parse as JSON.\<close>

datatype 'j response = NoResponse | Response bool nat "'j option"

definition fetchJSON :: "'j response \<Rightarrow> error + 'j" where
  "fetchJSON r =
     (case r of
        NoResponse \<Rightarrow> Inl NetworkError
      | Response ok status body \<Rightarrow>
          if ok then (case body of None \<Rightarrow> Inl SyntaxError | Some j \<Rightarrow> Inr j)
          else Inl (HttpStatus status))"

definition OGG_HEADER_LENGTH :: nat where
  "OGG_HEADER_LENGTH = length ''data:audio/ogg;base64,''"

section \<open>App\<close>

text \<open>
  The application: its state, its components, the parameters of the settings, the
  key-to-note mapping, the assets, the log kept in local storage, and the counter and
  the error text of the loading card. The last two fields are the work that the event
  loop still owes the application: \<open>timers\<close> holds the pending \<open>setTimeout\<close> callbacks
  of \<open>decodeAsync\<close>, in the order they were set, each with the key of the bank entry it
  belongs to and the text it will decode; \<open>decoding\<close> holds the binary data handed to
  \<open>decodeAudioData\<close> and not yet answered.
\<close>

datatype app_state = WAITING | LOADING | RUNNING

record key_event =
  code :: string
  repeat :: bool

record 'a App =
  state :: app_state
  player :: "'a sample option AudioPlayer option"
  keyboard :: Keyboard
  logger :: Logger
  params_display :: string
  params_output :: string
  params_layout :: string
  codesNotes :: "string \<rightharpoonup> string"
  notesBuffers :: "(string \<times> 'a sample) list asset"
  notesDigits :: "(string \<rightharpoonup> string) asset"
  notesLily :: "(string \<rightharpoonup> (string \<rightharpoonup> string)) asset"
  codesChars :: "(string \<rightharpoonup> string) asset"
  keyboardLayouts :: "string \<rightharpoonup> keyboard_layout asset"
  storedLog :: "token list option"
  loaded :: nat
  errorText :: "error option"
  timers :: "(string \<times> string) list"
  decoding :: "(string \<times> byte list) list"

definition layout_names :: "string list" where
  "layout_names = [''default'', ''ctrlcaps'', ''hhkb'', ''jp'', ''dvorak'']"

text \<open>The constructor, from the parameters of the settings and the log found in local
  storage (\<open>Logger.import\<close> keeps the empty log when there is none).\<close>

definition new_App :: "string \<Rightarrow> string \<Rightarrow> string \<Rightarrow> token list option \<Rightarrow> 'a App" where
  "new_App d out l stored =
     \<lparr>state = WAITING, player = None,
      keyboard = \<lparr>keys = Map.empty, held = []\<rparr>,
      logger = \<lparr>enabled = True, checked = True,
                tokens = (case stored of None \<Rightarrow> [] | Some ts \<Rightarrow> ts), textarea = []\<rparr>,
      params_display = d, params_output = out, params_layout = l,
      codesNotes = Map.empty,
      notesBuffers = new_asset ''assets/notes-buffers.json'',
      notesDigits = new_asset ''assets/notes-digits.json'',
      notesLily = new_asset ''assets/notes-lily.json'',
      codesChars = new_asset ''assets/codes-chars.json'',
      keyboardLayouts =
        (\<lambda>n. if n \<in> set layout_names
             then Some (new_asset (''assets/layouts/'' @ n @ ''.json'')) else None),
      storedLog = stored, loaded = 0, errorText = None, timers = [], decoding = []\<rparr>"

subsection \<open>Loading\<close>

text \<open>\<open>updateKeyboardLayout\<close>: the mapping is emptied first; iterating over the rows of the
  selected layout throws when the layout has no JSON.\<close>

definition updateKeyboardLayout :: "'a App \<Rightarrow> 'a App outcome" where
  "updateKeyboardLayout app =
     (let app1 = app\<lparr>codesNotes := Map.empty\<rparr>
      in case keyboardLayouts app1 (params_layout app1) of
           None \<Rightarrow> (Some TypeError, app1)
         | Some a \<Rightarrow>
             (case json a of
                None \<Rightarrow> (Some TypeError, app1)
              | Some rows \<Rightarrow>
                  (None, app1\<lparr>codesNotes :=
                     fold (\<lambda>(c, note) m. m(c \<mapsto> note)) (concat rows) Map.empty\<rparr>)))"

text \<open>\<open>Keyboard.render\<close>, through \<open>createRow\<close> and \<open>createKey\<close>: one new element for each
  key of the layout, row by row. \<open>createKey\<close> reads the label of the key from
  \<open>codesChars\<close>, and from \<open>notesDigits\<close> when the display mode is \<open>digit\<close>, and throws
  when the table it reads has no JSON. The layout asset of the keyboard is the one that
  the layout parameter selects: the handlers of the settings, which replace the keyboard
  whenever they change that parameter, are outside the model.\<close>

fun createKeys :: "'a App \<Rightarrow> (string \<times> string) list \<Rightarrow> Keyboard \<Rightarrow> Keyboard outcome" where
  "createKeys app [] kb = (None, kb)"
| "createKeys app ((c, note) # ks) kb =
     (if json (codesChars app) = None then (Some TypeError, kb)
      else if params_display app = ''digit'' \<and> json (notesDigits app) = None then (Some TypeError, kb)
      else createKeys app ks (kb\<lparr>keys := (keys kb)(c \<mapsto> False)\<rparr>))"

definition Keyboard_render :: "'a App \<Rightarrow> 'a App outcome" where
  "Keyboard_render app =
     (case keyboardLayouts app (params_layout app) of
        None \<Rightarrow> (Some TypeError, app)
      | Some a \<Rightarrow>
          (case json a of
             None \<Rightarrow> (Some TypeError, app)
           | Some rows \<Rightarrow>
               (case createKeys app (concat rows) (keyboard app) of
                  (e, kb) \<Rightarrow> (e, app\<lparr>keyboard := kb\<rparr>))))"

definition render :: "'a App \<Rightarrow> 'a App outcome" where
  "render app =
     (case Keyboard_render app of
        (Some e, app1) \<Rightarrow> (Some e, app1)
      | (None, app1) \<Rightarrow> (None, app1\<lparr>logger := log_render (params_output app1) (logger app1)\<rparr>))"

text \<open>The callback that \<open>start\<close> attaches to \<open>loadAssetsAsync()\<close>.\<close>

definition onAssetsLoaded :: "'a App \<Rightarrow> 'a App outcome" where
  "onAssetsLoaded app =
     (case updateKeyboardLayout app of
        (Some e, app1) \<Rightarrow> (Some e, app1)
      | (None, app1) \<Rightarrow>
          (case render app1 of
             (Some e, app2) \<Rightarrow> (Some e, app2)
           | (None, app2) \<Rightarrow> (None, app2\<lparr>state := RUNNING\<rparr>)))"

text \<open>\<open>loadAssetsAsync\<close> calls \<open>loadAsync\<close> on the nine assets, which starts their
  fetches, and waits for the nine promises with \<open>Promise.all\<close>.\<close>

definition loadAssetsAsync :: "'a App \<Rightarrow> 'a App" where
  "loadAssetsAsync app =
     app\<lparr>loaded := 0,
         notesBuffers := (notesBuffers app)\<lparr>promise := Some Pending\<rparr>,
         notesDigits := (notesDigits app)\<lparr>promise := Some Pending\<rparr>,
         notesLily := (notesLily app)\<lparr>promise := Some Pending\<rparr>,
         codesChars := (codesChars app)\<lparr>promise := Some Pending\<rparr>,
         keyboardLayouts :=
           (\<lambda>n. map_option (\<lambda>a. a\<lparr>promise := Some Pending\<rparr>) (keyboardLayouts app n))\<rparr>"

definition start :: "'a App \<Rightarrow> 'a App" where
  "start app = loadAssetsAsync (app\<lparr>player := Some (new_AudioPlayer None), state := LOADING\<rparr>)"

text \<open>\<open>Promise.all(assets)\<close> is fulfilled once each of the nine promises is.\<close>

definition all_fulfilled :: "'a App \<Rightarrow> bool" where
  "all_fulfilled app \<longleftrightarrow>
     promise (notesBuffers app) = Some Fulfilled
     \<and> promise (notesDigits app) = Some Fulfilled
     \<and> promise (notesLily app) = Some Fulfilled
     \<and> promise (codesChars app) = Some Fulfilled
     \<and> list_all (\<lambda>n. map_option promise (keyboardLayouts app n) = Some (Some Fulfilled))
         layout_names"

definition after_settle :: "'a App \<Rightarrow> 'a App outcome" where
  "after_settle app = (if all_fulfilled app then onAssetsLoaded app else (None, app))"

text \<open>
  \<open>JSONAsset.loadAsync\<close>, from the moment the fetch is answered: the \<open>then\<close> callback
  stores the JSON, the \<open>catch\<close> callback stores the error, and either way the callback
  returns normally, so the promise that \<open>loadAsync\<close> returned is fulfilled.
  \<open>onLoad\<close> and \<open>onError\<close> are the two callbacks that \<open>loadAssetsAsync\<close> passes.
\<close>

definition JSONAsset_loadAsync :: "'j response \<Rightarrow> 'j asset \<Rightarrow> 'j asset" where
  "JSONAsset_loadAsync r a =
     (case fetchJSON r of
        Inr j \<Rightarrow> a\<lparr>json := Some j, promise := Some Fulfilled\<rparr>
      | Inl e \<Rightarrow> a\<lparr>error := Some e, promise := Some Fulfilled\<rparr>)"

definition onLoad :: "'a App \<Rightarrow> 'a App" where
  "onLoad app = app\<lparr>loaded := loaded app + 1\<rparr>"

definition onError :: "error \<Rightarrow> 'a App \<Rightarrow> 'a App" where
  "onError e app = app\<lparr>errorText := Some e\<rparr>"

definition notify :: "'j response \<Rightarrow> 'a App \<Rightarrow> 'a App" where
  "notify r app = (case fetchJSON r of Inr j \<Rightarrow> onLoad app | Inl e \<Rightarrow> onError e app)"

definition notesDigits_fetched :: "(string \<rightharpoonup> string) response \<Rightarrow> 'a App \<Rightarrow> 'a App outcome" where
  "notesDigits_fetched r app =
     (let a = JSONAsset_loadAsync r (notesDigits app)
      in after_settle (notify r (app\<lparr>notesDigits := a\<rparr>)))"

definition notesLily_fetched ::
  "(string \<rightharpoonup> (string \<rightharpoonup> string)) response \<Rightarrow> 'a App \<Rightarrow> 'a App outcome" where
  "notesLily_fetched r app =
     (let a = JSONAsset_loadAsync r (notesLily app)
      in after_settle (notify r (app\<lparr>notesLily := a\<rparr>)))"

definition codesChars_fetched :: "(string \<rightharpoonup> string) response \<Rightarrow> 'a App \<Rightarrow> 'a App outcome" where
  "codesChars_fetched r app =
     (let a = JSONAsset_loadAsync r (codesChars app)
      in after_settle (notify r (app\<lparr>codesChars := a\<rparr>)))"

definition layout_fetched :: "string \<Rightarrow> keyboard_layout response \<Rightarrow> 'a App \<Rightarrow> 'a App outcome" where
  "layout_fetched n r app =
     (case keyboardLayouts app n of
        None \<Rightarrow> (None, app)
      | Some a0 \<Rightarrow>
          let a = JSONAsset_loadAsync r a0
          in after_settle (notify r (app\<lparr>keyboardLayouts := (keyboardLayouts app)(n \<mapsto> a)\<rparr>)))"

text \<open>
  \<open>AudioAsset.loadAsync\<close>, from the moment the fetch is answered. On a manifest the
  first \<open>then\<close> callback stores it and, for each key \<open>k\<close> in turn, calls \<open>decodeAsync\<close> on
  the entry without its header, which sets a timer, and pushes \<open>this.json[k]\<close>, still the
  encoded string, onto \<open>promises\<close>. \<open>Promise.all\<close> of these strings is fulfilled without
  waiting for anything, so the second \<open>then\<close> callback (\<open>onLoad\<close>) runs and the promise of
  \<open>loadAsync\<close> is fulfilled in the same turn of the event loop: promise reactions are
  microtasks, and they all run before the event loop takes the next task, while a timer
  callback is a task. The \<open>catch\<close> callback is as in \<open>JSONAsset\<close>.
\<close>

definition AudioAsset_loadAsync :: "(string \<times> string) list response \<Rightarrow> 'a App \<Rightarrow> 'a App" where
  "AudioAsset_loadAsync r app =
     (case fetchJSON r of
        Inr manifest \<Rightarrow>
          onLoad (app\<lparr>notesBuffers := (notesBuffers app)
                         \<lparr>json := Some (map (\<lambda>(k, s). (k, Encoded s)) manifest),
                          promise := Some Fulfilled\<rparr>,
                       timers := timers app
                         @ map (\<lambda>(k, s). (k, drop OGG_HEADER_LENGTH s)) manifest\<rparr>)
      | Inl e \<Rightarrow>
          onError e (app\<lparr>notesBuffers := (notesBuffers app)
                            \<lparr>error := Some e, promise := Some Fulfilled\<rparr>\<rparr>))"

definition notesBuffers_fetched ::
  "(string \<times> string) list response \<Rightarrow> 'a App \<Rightarrow> 'a App outcome" where
  "notesBuffers_fetched r app = after_settle (AudioAsset_loadAsync r app)"

text \<open>The first pending timer fires: the callback of \<open>decodeAsync\<close> decodes its text and
  resolves its promise, and the reaction hands the binary data to \<open>decodeAudioData\<close>.\<close>

definition timer_fired :: "'a App \<Rightarrow> 'a App" where
  "timer_fired app =
     (case timers app of
        [] \<Rightarrow> app
      | (k, input) # ts \<Rightarrow> app\<lparr>timers := ts, decoding := decoding app @ [(k, decode input)]\<rparr>)"

text \<open>\<open>decodeAudioData\<close> answers for the entry \<open>k\<close>, with an audio buffer or with a
  rejection. The last reaction of the chain stores the audio buffer in the bank; a
  rejection has no handler.\<close>

definition audio_decoded :: "string \<Rightarrow> 'a option \<Rightarrow> 'a App \<Rightarrow> 'a App" where
  "audio_decoded k result app =
     (case map_of (decoding app) k of
        None \<Rightarrow> app
      | Some _ \<Rightarrow>
          let app1 = app\<lparr>decoding := AList.delete k (decoding app)\<rparr>
          in case result of
               None \<Rightarrow> app1
             | Some audioBuffer \<Rightarrow>
                 app1\<lparr>notesBuffers := (notesBuffers app1)
                   \<lparr>json := map_option (AList.update k (Decoded audioBuffer))
                              (json (notesBuffers app1))\<rparr>\<rparr>)"

subsection \<open>Event handlers\<close>

text \<open>The part of \<open>onKeyDown\<close> after the guards, for a code mapped to a note.\<close>

definition note_text :: "'a App \<Rightarrow> string \<Rightarrow> error + token" where
  "note_text app note =
     (if params_output app = ''digit''
      then (case json (notesDigits app) of
              None \<Rightarrow> Inl TypeError
            | Some digits \<Rightarrow> Inr (digits note))
      else (case json (notesLily app) of
              None \<Rightarrow> Inl TypeError
            | Some lily \<Rightarrow>
                (case lily (params_output app) of
                   None \<Rightarrow> Inl TypeError
                 | Some names \<Rightarrow> Inr (names note))))"

definition play_note :: "string \<Rightarrow> string \<Rightarrow> 'a App \<Rightarrow> 'a App outcome" where
  "play_note c note app =
     (case press c (keyboard app) of
        (Some e, kb) \<Rightarrow> (Some e, app\<lparr>keyboard := kb\<rparr>)
      | (None, kb) \<Rightarrow>
          let app1 = app\<lparr>keyboard := kb\<rparr>
          in case note_text app1 note of
               Inl e \<Rightarrow> (Some e, app1)
             | Inr text \<Rightarrow>
                 let app2 = app1\<lparr>logger := log_insert (params_output app1) text (logger app1)\<rparr>;
                     app3 = app2\<lparr>storedLog := Some (tokens (logger app2))\<rparr>
                 in case player app3 of
                      None \<Rightarrow> (Some TypeError, app3)
                    | Some p \<Rightarrow>
                        (case json (notesBuffers app3) of
                           None \<Rightarrow> (Some TypeError, app3)
                         | Some bank \<Rightarrow>
                             (None, app3\<lparr>player := Some (play note (map_of bank note) p)\<rparr>)))"

definition onKeyDown :: "key_event \<Rightarrow> 'a App \<Rightarrow> 'a App outcome" where
  "onKeyDown event app =
     (if state app = WAITING then (None, start app)
      else if state app \<noteq> RUNNING then (None, app)
      else if code event = ''ArrowRight''
        then (None, app\<lparr>logger := log_space (params_output app) (logger app)\<rparr>)
      else if code event = ''ArrowDown''
        then (None, app\<lparr>logger := log_return (params_output app) (logger app)\<rparr>)
      else if code event = ''ArrowLeft''
        then (None, app\<lparr>logger := log_delete (params_output app) (logger app)\<rparr>)
      else
        case codesNotes app (code event) of
          None \<Rightarrow> (None, app)
        | Some note \<Rightarrow> if repeat event then (None, app) else play_note (code event) note app)"

definition onKeyUp :: "key_event \<Rightarrow> 'a App \<Rightarrow> 'a App outcome" where
  "onKeyUp event app =
     (if state app \<noteq> RUNNING then (None, app)
      else
        case codesNotes app (code event) of
          None \<Rightarrow> (None, app)
        | Some note \<Rightarrow>
            if repeat event then (None, app)
            else
              (case release (code event) (keyboard app) of
                 (Some e, kb) \<Rightarrow> (Some e, app\<lparr>keyboard := kb\<rparr>)
               | (None, kb) \<Rightarrow>
                   (case player app of
                      None \<Rightarrow> (Some TypeError, app\<lparr>keyboard := kb\<rparr>)
                    | Some p \<Rightarrow> (None, app\<lparr>keyboard := kb, player := Some (pause note p)\<rparr>))))"

text \<open>\<open>onVisibilityChange\<close>; the argument tells whether \<open>document.visibilityState\<close> is
  \<open>visible\<close>.\<close>

definition onVisibilityChange :: "bool \<Rightarrow> 'a App \<Rightarrow> 'a App outcome" where
  "onVisibilityChange visible app =
     (if state app \<noteq> RUNNING then (None, app)
      else if \<not> visible then
        (case player app of
           None \<Rightarrow> (Some TypeError, app)
         | Some p \<Rightarrow>
             let app1 = app\<lparr>player := Some (pauseAll p)\<rparr>
             in case releaseAll (keyboard app1) of
                  (e, kb) \<Rightarrow> (e, app1\<lparr>keyboard := kb\<rparr>))
      else (None, app))"

text \<open>The audio clock moves on between two events.\<close>

definition advance :: "rat \<Rightarrow> 'a App \<Rightarrow> 'a App" where
  "advance t app = app\<lparr>player := map_option (\<lambda>p. p\<lparr>currentTime := t\<rparr>) (player app)\<rparr>"

subsection \<open>The event loop\<close>

text \<open>
  What the environment delivers to the application, one task at a time: a click on the
  waiting button (its listener is \<open>start\<close>), the key and visibility events, a change of
  the logger switch, the answers to the nine fetches, a timer, an answer of
  \<open>decodeAudioData\<close>, and the progress of the audio clock. Each task runs to completion
  together with the promise reactions it triggers. An exception that escapes a handler
  is reported by the environment and the loop goes on with the state the handler left.
\<close>

datatype 'a event =
    Click
  | KeyDown key_event
  | KeyUp key_event
  | VisibilityChange bool
  | Switch bool
  | NotesBuffersFetched "(string \<times> string) list response"
  | NotesDigitsFetched "(string \<rightharpoonup> string) response"
  | NotesLilyFetched "(string \<rightharpoonup> (string \<rightharpoonup> string)) response"
  | CodesCharsFetched "(string \<rightharpoonup> string) response"
  | LayoutFetched string "keyboard_layout response"
  | TimerFired
  | AudioDecoded string "'a option"
  | ClockTick rat

fun deliver :: "'a event \<Rightarrow> 'a App \<Rightarrow> 'a App outcome" where
  "deliver Click app = (None, start app)"
| "deliver (KeyDown e) app = onKeyDown e app"
| "deliver (KeyUp e) app = onKeyUp e app"
| "deliver (VisibilityChange visible) app = onVisibilityChange visible app"
| "deliver (Switch c) app = (None, app\<lparr>logger := log_switch (Some c) (logger app)\<rparr>)"
| "deliver (NotesBuffersFetched r) app = notesBuffers_fetched r app"
| "deliver (NotesDigitsFetched r) app = notesDigits_fetched r app"
| "deliver (NotesLilyFetched r) app = notesLily_fetched r app"
| "deliver (CodesCharsFetched r) app = codesChars_fetched r app"
| "deliver (LayoutFetched n r) app = layout_fetched n r app"
| "deliver TimerFired app = (None, timer_fired app)"
| "deliver (AudioDecoded k result) app = (None, audio_decoded k result app)"
| "deliver (ClockTick t) app = (None, advance t app)"

definition run_events :: "'a event list \<Rightarrow> 'a App \<Rightarrow> 'a App" where
  "run_events events app = fold (\<lambda>e a. snd (deliver e a)) events app"

text \<open>The answers of a server that has every asset but the sample manifest: the tables
  of the running example and a one-key layout under each of the five names.\<close>

definition other_assets_fetched :: "unit event list" where
  "other_assets_fetched =
     [NotesDigitsFetched (Response True 200 (Some [''C4'' \<mapsto> ''1''])),
      NotesLilyFetched (Response True 200 (Some Map.empty)),
      CodesCharsFetched (Response True 200 (Some [''KeyA'' \<mapsto> ''A'']))]
     @ map (\<lambda>n. LayoutFetched n (Response True 200 (Some [[(''KeyA'', ''C4'')]]))) layout_names"

text \<open>A manifest with two entries, each the header followed by one group of four
  symbols.\<close>

definition example_manifest :: "(string \<times> string) list" where
  "example_manifest =
     [(''C4'', ''data:audio/ogg;base64,AAAA''), (''D4'', ''data:audio/ogg;base64,AAAA'')]"

subsection \<open>An application at work\<close>


section \<open>Properties of the decoder\<close>

subsection \<open>The alphabet\<close>


lemma indexOf_keyStr_empty: "indexOf keyStr [] = 0"
  by (simp add: indexOf_def keyStr_def)





lemma symbol_index_past_end: "length input \<le> j \<Longrightarrow> symbol_index input j = 0"
  by (simp add: symbol_index_def charAt_def indexOf_keyStr_empty)

subsection \<open>Trimming the padding\<close>

lemma loop_skip_padding:
  "k \<le> p \<Longrightarrow>
   removePaddingChars_loop (xs @ replicate p CHR ''='') (length xs + k) =
   removePaddingChars_loop (xs @ replicate p CHR ''='') (length xs)"
  by (induction k) (simp_all add: charAt_def nth_append)

lemma loop_stop:
  "a \<noteq> CHR ''='' \<Longrightarrow> removePaddingChars_loop (zs @ a # ys) (Suc (length zs)) = zs @ [a]"
  by (simp add: charAt_def nth_append)

lemma removePaddingChars_all_padding:
  "removePaddingChars (replicate p CHR ''='') = replicate p CHR ''=''"
  using loop_skip_padding [of p p "[]"] by (simp add: removePaddingChars_def)

lemma removePaddingChars_snoc:
  assumes "a \<noteq> CHR ''=''"
  shows "removePaddingChars ((zs @ [a]) @ replicate p CHR ''='') = zs @ [a]"
proof -
  have "removePaddingChars ((zs @ [a]) @ replicate p CHR ''='') =
        removePaddingChars_loop ((zs @ [a]) @ replicate p CHR ''='') (length (zs @ [a]))"
    using loop_skip_padding [of p p "zs @ [a]"] by (simp add: removePaddingChars_def)
  also have "\<dots> = zs @ [a]"
    using loop_stop [OF assms, of zs "replicate p CHR ''=''"] by simp
  finally show ?thesis .
qed

lemma trailing_padding_replicate: "trailing_padding (replicate p CHR ''='') = p"
  by (simp add: trailing_padding_def takeWhile_replicate)

lemma trailing_padding_snoc:
  "a \<noteq> CHR ''='' \<Longrightarrow> trailing_padding ((zs @ [a]) @ replicate p CHR ''='') = p"
  by (simp add: trailing_padding_def takeWhile_append takeWhile_replicate)

lemma split_padding:
  "\<exists>xs p. s = xs @ replicate p CHR ''='' \<and> (xs = [] \<or> last xs \<noteq> CHR ''='')"
proof (induction s rule: rev_induct)
  case Nil
  show ?case by simp
next
  case (snoc a s)
  show ?case
  proof (cases "a = CHR ''=''")
    case True
    from snoc obtain xs p where s: "s = xs @ replicate p CHR ''=''"
      and xs: "xs = [] \<or> last xs \<noteq> CHR ''=''"
      by blast
    have "s @ [a] = xs @ replicate (Suc p) CHR ''=''"
      using s True by (simp add: replicate_append_same)
    with xs show ?thesis by blast
  next
    case False
    have "s @ [a] = (s @ [a]) @ replicate 0 CHR ''=''"
      by simp
    moreover have "last (s @ [a]) \<noteq> CHR ''=''"
      using False by simp
    ultimately show ?thesis by blast
  qed
qed

text \<open>\<open>removePaddingChars\<close> cuts the trailing padding off, except from a string made of
  padding symbols only, which it returns whole.\<close>

lemma removePaddingChars_eq:
  "removePaddingChars s =
     (if trailing_padding s = length s then s else take (length s - trailing_padding s) s)"
proof -
  obtain xs p where s: "s = xs @ replicate p CHR ''=''"
    and xs: "xs = [] \<or> last xs \<noteq> CHR ''=''"
    using split_padding by blast
  show ?thesis
  proof (cases xs rule: rev_cases)
    case Nil
    with s show ?thesis
      by (simp add: removePaddingChars_all_padding trailing_padding_replicate)
  next
    case (snoc zs a)
    with xs have a: "a \<noteq> CHR ''=''"
      by simp
    have "removePaddingChars s = zs @ [a]"
      unfolding s snoc by (rule removePaddingChars_snoc [OF a])
    moreover have "trailing_padding s = p"
      unfolding s snoc by (rule trailing_padding_snoc [OF a])
    moreover have "length s = Suc (length zs) + p"
      unfolding s snoc by simp
    moreover have "take (Suc (length zs)) s = zs @ [a]"
      unfolding s snoc by simp
    ultimately show ?thesis by simp
  qed
qed

lemma trailing_padding_le: "trailing_padding s \<le> length s"
  unfolding trailing_padding_def
  by (rule order_trans [OF length_takeWhile_le]) simp

subsection \<open>The length of the output\<close>

lemma length_store [simp]: "length (store u i v) = length u"
  by (simp add: store_def)

lemma length_decode_group [simp]: "length (decode_group input i j u) = length u"
  by (simp add: decode_group_def group_stores_def Let_def)

lemma length_decode_loop [simp]: "length (decode_loop input bytes i j u) = length u"
  by (induction input bytes i j u rule: decode_loop.induct)
     (subst decode_loop.simps, simp)

lemma floor_bytes: "nat \<lfloor>(of_nat n / 4 * 3 :: rat)\<rfloor> = (n * 3) div 4"
proof -
  have "(of_nat n / 4 * 3 :: rat) = of_int (int (n * 3)) / of_int 4"
    by simp
  then have "\<lfloor>(of_nat n / 4 * 3 :: rat)\<rfloor> = int (n * 3) div 4"
    by (simp only: floor_divide_of_int_eq)
  then show ?thesis
    by (simp add: nat_div_distrib)
qed

lemma length_decode:
  "length (decode s) = (length (removePaddingChars (strip_invalid s)) * 3) div 4"
  unfolding decode_def Let_def
  by (simp only: length_decode_loop length_replicate floor_bytes)

subsection \<open>The bytes of the output\<close>

lemma decode_group_nth:
  assumes "k < length u"
  shows "decode_group input (3 * m) (4 * m) u ! k =
     (if k = 3 * m
        then word_of_int (chr1_of (symbol_index input (4 * m)) (symbol_index input (4 * m + 1)))
      else if k = 3 * m + 1 \<and> symbol_index input (4 * m + 2) \<noteq> 64
        then word_of_int (chr2_of (symbol_index input (4 * m + 1)) (symbol_index input (4 * m + 2)))
      else if k = 3 * m + 2 \<and> symbol_index input (4 * m + 3) \<noteq> 64
        then word_of_int (chr3_of (symbol_index input (4 * m + 2)) (symbol_index input (4 * m + 3)))
      else u ! k)"
  using assms by (simp add: decode_group_def group_stores_def Let_def store_def)

lemma decode_group_done:
  assumes "k < length u" and "k < 3 * m + 3" and "3 * m \<le> k" and "u ! k = 0"
  shows "decode_group input (3 * m) (4 * m) u ! k = decoded_byte input k"
proof -
  from assms(2,3) consider "k = 3 * m" | "k = 3 * m + 1" | "k = 3 * m + 2"
    by linarith
  then show ?thesis
  proof cases
    case 1
    then show ?thesis
      using assms(1) by (simp add: decode_group_nth decoded_byte_def Let_def)
  next
    case 2
    then have "k div 3 = m" "k mod 3 = 1"
      by presburger+
    with 2 show ?thesis
      using assms(1,4) by (simp add: decode_group_nth decoded_byte_def Let_def)
  next
    case 3
    then have "k div 3 = m" "k mod 3 = 2"
      by presburger+
    with 3 show ?thesis
      using assms(1,4) by (simp add: decode_group_nth decoded_byte_def Let_def)
  qed
qed

lemma decode_loop_nth:
  assumes "i = 3 * m" and "j = 4 * m" and "k < length u" and "of_nat (length u) \<le> bytes"
    and "\<forall>n. 3 * m \<le> n \<and> n < length u \<longrightarrow> u ! n = 0"
  shows "decode_loop input bytes i j u ! k = (if k < 3 * m then u ! k else decoded_byte input k)"
  using assms
proof (induction input bytes i j u arbitrary: m rule: decode_loop.induct)
  case (1 input bytes i j uarray)
  show ?case
  proof (cases "of_nat i < bytes")
    case False
    then have "bytes \<le> of_nat (3 * m)"
      using "1.prems"(1) by simp
    with "1.prems"(3,4) have "(of_nat k :: rat) < of_nat (3 * m)"
      by (meson less_le_trans of_nat_less_iff order_trans not_le)
    then have "k < 3 * m"
      by (simp only: of_nat_less_iff)
    with False show ?thesis
      by (subst decode_loop.simps) simp
  next
    case True
    let ?u = "decode_group input i j uarray"
    have i': "i + 3 = 3 * Suc m" and j': "j + 4 = 4 * Suc m"
      using "1.prems"(1,2) by simp_all
    have len: "length ?u = length uarray"
      by simp
    have zero: "\<forall>n. 3 * Suc m \<le> n \<and> n < length ?u \<longrightarrow> ?u ! n = 0"
      using "1.prems"(1,2,5) by (simp add: decode_group_nth)
    have "decode_loop input bytes (i + 3) (j + 4) ?u ! k =
          (if k < 3 * Suc m then ?u ! k else decoded_byte input k)"
      using "1.IH" [OF True i' j' _ _ zero] "1.prems"(3,4) by simp
    moreover have "?u ! k = uarray ! k" if "k < 3 * m"
      using that "1.prems"(1,2,3) by (simp add: decode_group_nth)
    moreover have "?u ! k = decoded_byte input k" if "3 * m \<le> k" "k < 3 * Suc m"
      using that "1.prems"(1,2,3,5) decode_group_done [of k uarray m input] by simp
    ultimately show ?thesis
      using True by (subst decode_loop.simps) auto
  qed
qed

lemma decode_nth:
  "k < length (decode s) \<Longrightarrow>
   decode s ! k = decoded_byte (removePaddingChars (strip_invalid s)) k"
proof -
  let ?input = "removePaddingChars (strip_invalid s)"
  let ?bytes = "of_nat (length ?input) / 4 * 3 :: rat"
  let ?u = "replicate (nat \<lfloor>?bytes\<rfloor>) (0 :: byte)"
  assume "k < length (decode s)"
  then have k: "k < length ?u"
    unfolding decode_def Let_def by (simp only: length_decode_loop)
  have "0 \<le> ?bytes" by simp
  then have le: "of_nat (length ?u) \<le> ?bytes"
    by (simp only: length_replicate) (metis of_nat_nat of_int_floor_le zero_le_floor)
  have "decode_loop ?input ?bytes 0 0 ?u ! k =
        (if k < 3 * 0 then ?u ! k else decoded_byte ?input k)"
    by (rule decode_loop_nth [OF _ _ k le]) simp_all
  then show ?thesis
    unfolding decode_def Let_def by simp
qed

subsection \<open>The loop, group by group\<close>





subsection \<open>Arithmetic of the padded length\<close>

lemma pad_arith:
  fixes h p :: nat
  assumes "p \<le> 2"
  shows "(4 * Suc h - p) * 3 div 4 = 3 * Suc h - p"
proof -
  from assms consider "p = 0" | "p = 1" | "p = 2"
    by linarith
  then show ?thesis
  proof cases
    case 1
    then show ?thesis by simp
  next
    case 2
    have "(4 * Suc h - 1) * 3 = 4 * (3 * h + 2) + 1"
      by simp
    then have "(4 * Suc h - 1) * 3 div 4 = 3 * h + 2"
      by simp
    with 2 show ?thesis by simp
  next
    case 3
    have "(4 * Suc h - 2) * 3 = 4 * (3 * h + 1) + 2"
      by simp
    then have "(4 * Suc h - 2) * 3 div 4 = 3 * h + 1"
      by simp
    with 3 show ?thesis by simp
  qed
qed

lemma c5_arith:
  fixes n p :: nat
  assumes "n mod 4 = 0" and "0 < n" and "p \<le> 2"
  shows "int ((n - p) * 3 div 4) = int (n div 4 * 3) - int p"
proof -
  from assms(1) obtain g where g: "n = 4 * g"
    by (auto simp: mod_eq_0_iff_dvd)
  with assms(2) obtain h where "g = Suc h"
    by (cases g) simp_all
  with g have n: "n = 4 * Suc h"
    by simp
  have "(n - p) * 3 div 4 = 3 * Suc h - p"
    unfolding n by (rule pad_arith [OF assms(3)])
  moreover have "n div 4 * 3 = 3 * Suc h"
    unfolding n by simp
  moreover have "p \<le> 3 * Suc h"
    using assms(3) by simp
  ultimately show ?thesis
    by (simp add: of_nat_diff)
qed

section \<open>Claims about the decoder\<close>

text \<open>
  C5. Take an input whose length, once the characters outside the alphabet are stripped,
  is a multiple of 4 and which ends in at most two padding symbols. The buffer that
  \<open>decode\<close> returns has three bytes for each group of four symbols, less one byte for
  each trailing padding symbol.
\<close>

theorem decode_length_padded:
  assumes "length (strip_invalid s) mod 4 = 0"
    and "trailing_padding (strip_invalid s) \<le> 2"
  shows "int (length (decode s)) =
         int (length (strip_invalid s) div 4 * 3) - int (trailing_padding (strip_invalid s))"
proof (cases "strip_invalid s = []")
  case True
  then show ?thesis
    by (simp add: length_decode removePaddingChars_def trailing_padding_def)
next
  case False
  let ?c = "strip_invalid s"
  let ?p = "trailing_padding ?c"
  from False have pos: "0 < length ?c"
    by simp
  with assms(1) have "4 \<le> length ?c"
    by presburger
  with assms(2) have "?p \<noteq> length ?c"
    by linarith
  then have "length (removePaddingChars ?c) = length ?c - ?p"
    using trailing_padding_le [of ?c] by (simp add: removePaddingChars_eq)
  then have "length (decode s) = (length ?c - ?p) * 3 div 4"
    by (simp add: length_decode)
  then show ?thesis
    using c5_arith [OF assms(1) pos assms(2)] by simp
qed

theorem decode_length_padded_witness:
  "length (strip_invalid ''QU I=!'') mod 4 = 0
   \<and> trailing_padding (strip_invalid ''QU I=!'') \<le> 2
   \<and> length (decode ''QU I=!'') = 2"
proof -
  have l: "length (strip_invalid ''QU I=!'') mod 4 = 0"
    by (simp add: strip_invalid_def in_class_def)
  have p: "trailing_padding (strip_invalid ''QU I=!'') \<le> 2"
    by (simp add: strip_invalid_def in_class_def trailing_padding_def)
  have "strip_invalid ''QU I=!'' = ''QUI=''"
    by (simp add: strip_invalid_def in_class_def)
  then have "int (length (decode ''QU I=!'')) = 2"
    using decode_length_padded [OF l p] by (simp add: trailing_padding_def)
  with l p show ?thesis by simp
qed




text \<open>
  C9. \<open>decode\<close> is a total function: it returns a buffer for every input string. A
  position read past the end of the cleaned input (stripped of the characters outside
  the alphabet, trailing padding trimmed) decodes as symbol index 0, a store past the end
  of the buffer leaves it as it is, and the length of the output is the integer part of
  three quarters of the length of the cleaned input.
\<close>

theorem decode_total:
  "(\<exists>buffer. decode s = buffer
      \<and> length buffer = length (removePaddingChars (strip_invalid s)) * 3 div 4)
   \<and> (length input \<le> j \<longrightarrow> symbol_index input j = 0)
   \<and> (length uarray \<le> i \<longrightarrow> store uarray i v = uarray)"
proof -
  have "length input \<le> j \<longrightarrow> symbol_index input j = 0"
    by (simp add: symbol_index_past_end)
  moreover have "length uarray \<le> i \<longrightarrow> store uarray i v = uarray"
    by (simp add: store_def)
  ultimately show ?thesis
    using length_decode [of s] by blast
qed

theorem decode_total_witness:
  "length (decode ''QUJDE'') = 3
   \<and> length ''QUJDE'' \<le> 5 \<and> symbol_index ''QUJDE'' 5 = 0
   \<and> length [65, 66, 67 :: byte] \<le> 3 \<and> store [65, 66, 67] 3 16 = [65, 66, 67]"
proof -
  have c: "removePaddingChars (strip_invalid ''QUJDE'') = ''QUJDE''"
    by (simp add: strip_invalid_def in_class_def removePaddingChars_def charAt_def)
  have "length (decode ''QUJDE'') = 3"
    using decode_total [of "''QUJDE''" "''QUJDE''" 5 "[65, 66, 67]" 3 16]
    by (simp add: c)
  moreover have "symbol_index ''QUJDE'' 5 = 0"
    using decode_total [of "''QUJDE''" "''QUJDE''" 5 "[65, 66, 67]" 3 16]
    by simp
  moreover have "store [65, 66, 67 :: byte] 3 16 = [65, 66, 67]"
    using decode_total [of "''QUJDE''" "''QUJDE''" 5 "[65, 66, 67]" 3 16]
    by simp
  ultimately show ?thesis
    by simp
qed

section \<open>Properties of the player\<close>

lemma map_of_delete: "map_of (AList.delete k xs) k' = (if k' = k then None else map_of xs k')"
  by (simp add: AList.delete_conv)

lemma delete_absent: "k \<notin> fst ` set xs \<Longrightarrow> AList.delete k xs = xs"
  by (induction xs) auto

lemma player_ok_iff:
  "player_ok p \<longleftrightarrow>
     distinct (map fst (sources p))
     \<and> (\<forall>k n. map_of (sources p) k = Some n \<longrightarrow>
           n < length (nodes p) \<and> node_id (nodes p ! n) = k \<and> stop_when (nodes p ! n) = None)
     \<and> (\<forall>n < length (nodes p). stop_when (nodes p ! n) = None \<longrightarrow>
           map_of (sources p) (node_id (nodes p ! n)) = Some n)"
proof (cases "distinct (map fst (sources p))")
  case False
  then show ?thesis by (simp add: player_ok_def)
next
  case True
  then have mem: "(k, n) \<in> set (sources p) \<longleftrightarrow> map_of (sources p) k = Some n" for k n
    by simp
  have a: "list_all (\<lambda>(k, n). n < length (nodes p) \<and> node_id (nodes p ! n) = k
                \<and> stop_when (nodes p ! n) = None) (sources p)
         \<longleftrightarrow> (\<forall>k n. map_of (sources p) k = Some n \<longrightarrow>
           n < length (nodes p) \<and> node_id (nodes p ! n) = k \<and> stop_when (nodes p ! n) = None)"
    unfolding list_all_iff mem [symmetric] by fast
  have b: "list_all (\<lambda>n. stop_when (nodes p ! n) = None
                       \<longrightarrow> map_of (sources p) (node_id (nodes p ! n)) = Some n)
             [0..<length (nodes p)]
         \<longleftrightarrow> (\<forall>n < length (nodes p). stop_when (nodes p ! n) = None \<longrightarrow>
           map_of (sources p) (node_id (nodes p ! n)) = Some n)"
    unfolding list_all_iff by (simp only: set_upt atLeastLessThan_iff Ball_def) blast
  show ?thesis
    unfolding player_ok_def a b using True by (simp only: simp_thms)
qed




lemma pause_active:
  assumes "map_of (sources p) nid = Some i"
  shows "map_of (sources (pause nid p)) k = (if k = nid then None else map_of (sources p) k)"
    and "nodes (pause nid p) =
           (nodes p)[i := (nodes p ! i)\<lparr>stop_when := Some (currentTime p + stopDelay p)\<rparr>]"
    and "sources (pause nid p) = AList.delete nid (sources p)"
    and "currentTime (pause nid p) = currentTime p"
    and "stopDelay (pause nid p) = stopDelay p"
    and "gain (pause nid p) = gain p"
  using assms by (simp_all add: pause_def map_of_delete)

lemma player_ok_pause:
  assumes "player_ok p"
  shows "player_ok (pause nid p)"
proof (cases "map_of (sources p) nid")
  case None
  with assms show ?thesis by (simp add: pause_def)
next
  case (Some i)
  note q = pause_active [OF Some]
  from assms have ok:
    "distinct (map fst (sources p))"
    "\<And>k n. map_of (sources p) k = Some n \<Longrightarrow>
       n < length (nodes p) \<and> node_id (nodes p ! n) = k \<and> stop_when (nodes p ! n) = None"
    "\<And>n. n < length (nodes p) \<Longrightarrow> stop_when (nodes p ! n) = None \<Longrightarrow>
       map_of (sources p) (node_id (nodes p ! n)) = Some n"
    by (simp_all add: player_ok_iff)
  have i: "i < length (nodes p)" "node_id (nodes p ! i) = nid"
    using ok(2) [OF Some] by simp_all
  show ?thesis
    unfolding player_ok_iff
  proof (intro conjI)
    show "distinct (map fst (sources (pause nid p)))"
      using ok(1) by (simp add: q(3) AList.distinct_delete)
  next
    show "\<forall>k n. map_of (sources (pause nid p)) k = Some n \<longrightarrow>
      n < length (nodes (pause nid p))
      \<and> node_id (nodes (pause nid p) ! n) = k
      \<and> stop_when (nodes (pause nid p) ! n) = None"
    proof (intro allI impI)
      fix k n
      assume "map_of (sources (pause nid p)) k = Some n"
      then have k: "k \<noteq> nid" "map_of (sources p) k = Some n"
        by (auto simp: q(1) split: if_splits)
      with ok(2) [OF k(2)] i have "n \<noteq> i"
        by auto
      with ok(2) [OF k(2)]
      show "n < length (nodes (pause nid p))
        \<and> node_id (nodes (pause nid p) ! n) = k
        \<and> stop_when (nodes (pause nid p) ! n) = None"
        by (simp add: q(2))
    qed
  next
    show "\<forall>n<length (nodes (pause nid p)). stop_when (nodes (pause nid p) ! n) = None \<longrightarrow>
      map_of (sources (pause nid p)) (node_id (nodes (pause nid p) ! n)) = Some n"
    proof (intro allI impI)
      fix n
      assume n: "n < length (nodes (pause nid p))" "stop_when (nodes (pause nid p) ! n) = None"
      then have ni: "n \<noteq> i"
        using i by (auto simp: q(2))
      with n have live: "n < length (nodes p)" "stop_when (nodes p ! n) = None"
        by (simp_all add: q(2))
      from ok(3) [OF live] ni Some have "node_id (nodes p ! n) \<noteq> nid"
        by auto
      with ok(3) [OF live] ni
      show "map_of (sources (pause nid p)) (node_id (nodes (pause nid p) ! n)) = Some n"
        by (simp add: q(1,2))
    qed
  qed
qed












lemma fold_pause_all:
  assumes "player_ok p" and "sources p = xs"
  shows "fold pause (map fst xs) p =
         p\<lparr>nodes := map (\<lambda>v. if stop_when v = None
                               then stopped_at (currentTime p + stopDelay p) v else v) (nodes p),
           sources := []\<rparr>"
  using assms
proof (induction xs arbitrary: p)
  case Nil
  then have "\<And>n. n < length (nodes p) \<Longrightarrow> stop_when (nodes p ! n) \<noteq> None"
    by (auto simp: player_ok_iff)
  then have "\<And>v. v \<in> set (nodes p) \<Longrightarrow> stop_when v \<noteq> None"
    by (auto simp: in_set_conv_nth)
  then have "map (\<lambda>v. if stop_when v = None
                 then stopped_at (currentTime p + stopDelay p) v else v) (nodes p) = nodes p"
    by (intro map_idI) fastforce
  with Nil.prems(2) show ?case
    by simp
next
  case (Cons x xs)
  obtain k n where x: "x = (k, n)"
    by (cases x)
  let ?t = "currentTime p + stopDelay p"
  let ?f = "\<lambda>v. if stop_when v = None then stopped_at ?t v else v"
  let ?q = "pause k p"
  have src: "map_of (sources p) k = Some n"
    using Cons.prems(2) x by simp
  note q = pause_active [OF src]
  from Cons.prems have "k \<notin> fst ` set xs"
    by (auto simp: player_ok_iff x)
  then have sq: "sources ?q = xs"
    using Cons.prems(2) x by (simp add: q(3) delete_absent)
  have okq: "player_ok ?q"
    by (rule player_ok_pause [OF Cons.prems(1)])
  from Cons.prems(1) src have n: "n < length (nodes p)" "stop_when (nodes p ! n) = None"
    by (simp_all add: player_ok_iff)
  have "map ?f (nodes ?q) = (map ?f (nodes p))[n := ?f (stopped_at ?t (nodes p ! n))]"
    by (simp add: q(2) map_update stopped_at_def)
  also have "?f (stopped_at ?t (nodes p ! n)) = map ?f (nodes p) ! n"
    using n by (simp add: stopped_at_def)
  also have "(map ?f (nodes p))[n := map ?f (nodes p) ! n] = map ?f (nodes p)"
    by (rule list_update_id)
  finally have nodes: "map ?f (nodes ?q) = map ?f (nodes p)" .
  have "fold pause (map fst (x # xs)) p = fold pause (map fst xs) ?q"
    by (simp add: x)
  also have "\<dots> = ?q\<lparr>nodes := map (\<lambda>v. if stop_when v = None
                               then stopped_at (currentTime ?q + stopDelay ?q) v else v) (nodes ?q),
           sources := []\<rparr>"
    by (rule Cons.IH [OF okq sq])
  also have "\<dots> = ?q\<lparr>nodes := map ?f (nodes p), sources := []\<rparr>"
    by (simp only: q(4,5) nodes)
  also have "\<dots> = p\<lparr>nodes := map ?f (nodes p), sources := []\<rparr>"
    using src by (simp add: pause_def)
  finally show ?case .
qed

lemma pauseAll_eq:
  "player_ok p \<Longrightarrow>
   pauseAll p =
     p\<lparr>nodes := map (\<lambda>v. if stop_when v = None
                           then stopped_at (currentTime p + stopDelay p) v else v) (nodes p),
       sources := []\<rparr>"
  unfolding pauseAll_def by (rule fold_pause_all) simp_all

lemma releaseAll_loop_all:
  assumes "keyboard_ok kb" and "held kb = xs"
  shows "releaseAll_loop (map fst xs) kb =
         (None, kb\<lparr>keys := fold (\<lambda>c m. m(c \<mapsto> False)) (map fst xs) (keys kb), held := []\<rparr>)"
  using assms
proof (induction xs arbitrary: kb)
  case Nil
  then show ?case by simp
next
  case (Cons x xs)
  from Cons.prems obtain c where x: "x = (c, True)" and el: "keys kb c \<noteq> None"
    by (cases x) (auto simp: keyboard_ok_def)
  from Cons.prems x have notin: "c \<notin> fst ` set xs"
    by (auto simp: keyboard_ok_def)
  let ?kb = "kb\<lparr>keys := (keys kb)(c \<mapsto> False), held := xs\<rparr>"
  have rel: "release c kb = (None, ?kb)"
    using Cons.prems(2) x el notin by (auto simp: release_def Let_def delete_absent)
  have ok: "keyboard_ok ?kb"
    using Cons.prems by (auto simp: keyboard_ok_def list_all_iff)
  have "releaseAll_loop (map fst (x # xs)) kb = releaseAll_loop (map fst xs) ?kb"
    by (simp add: x rel)
  also have "\<dots> = (None, ?kb\<lparr>keys := fold (\<lambda>c m. m(c \<mapsto> False)) (map fst xs) (keys ?kb),
                              held := []\<rparr>)"
    by (rule Cons.IH [OF ok]) simp
  also have "\<dots> = (None, kb\<lparr>keys := fold (\<lambda>c m. m(c \<mapsto> False)) (map fst (x # xs)) (keys kb),
                              held := []\<rparr>)"
    by (simp add: x)
  finally show ?case .
qed

lemma releaseAll_eq:
  "keyboard_ok kb \<Longrightarrow>
   releaseAll kb =
     (None, kb\<lparr>keys := fold (\<lambda>c m. m(c \<mapsto> False)) (map fst (held kb)) (keys kb), held := []\<rparr>)"
  unfolding releaseAll_def by (rule releaseAll_loop_all) simp_all

section \<open>Claims about the player\<close>





text \<open>
  C8. When the document stops being visible in the state \<open>RUNNING\<close>, \<open>stop\<close> is called,
  with the current time plus \<open>stopDelay\<close>, on the node of every active voice, \<open>sources\<close>
  is emptied, every held code is released and \<open>held\<close> is emptied; nothing else changes.
  In a state other than \<open>RUNNING\<close> the handler changes nothing.
\<close>

theorem visibility_loss:
  assumes "state app = RUNNING" and "player app = Some p"
    and "player_ok p" and "keyboard_ok (keyboard app)"
  shows "onVisibilityChange False app =
           (None,
            app\<lparr>player := Some (p\<lparr>nodes :=
                      map (\<lambda>v. if stop_when v = None
                                then stopped_at (currentTime p + stopDelay p) v else v) (nodes p),
                    sources := []\<rparr>),
                keyboard := (keyboard app)
                   \<lparr>keys := fold (\<lambda>c m. m(c \<mapsto> False)) (map fst (held (keyboard app)))
                              (keys (keyboard app)),
                    held := []\<rparr>\<rparr>)
         \<and> (state a \<noteq> RUNNING \<longrightarrow> onVisibilityChange visible a = (None, a))"
  using assms
  by (simp add: onVisibilityChange_def pauseAll_eq releaseAll_eq)

theorem visibility_loss_witness:
  "state ((new_App ''digit'' ''digit'' ''default'' None :: unit App)
      \<lparr>state := RUNNING,
       player := Some (play ''C4'' None (new_AudioPlayer None)),
       keyboard := \<lparr>keys = [''KeyA'' \<mapsto> True], held = [(''KeyA'', True)]\<rparr>\<rparr>) = RUNNING
   \<and> player_ok (play ''C4'' (None :: unit sample option) (new_AudioPlayer None))
   \<and> keyboard_ok \<lparr>keys = [''KeyA'' \<mapsto> True], held = [(''KeyA'', True)]\<rparr>
   \<and> fst (onVisibilityChange False
        ((new_App ''digit'' ''digit'' ''default'' None :: unit App)
           \<lparr>state := RUNNING,
            player := Some (play ''C4'' None (new_AudioPlayer None)),
            keyboard := \<lparr>keys = [''KeyA'' \<mapsto> True], held = [(''KeyA'', True)]\<rparr>\<rparr>)) = None
   \<and> map_option sources (player (snd (onVisibilityChange False
        ((new_App ''digit'' ''digit'' ''default'' None :: unit App)
           \<lparr>state := RUNNING,
            player := Some (play ''C4'' None (new_AudioPlayer None)),
            keyboard := \<lparr>keys = [''KeyA'' \<mapsto> True], held = [(''KeyA'', True)]\<rparr>\<rparr>)))) = Some []
   \<and> map_option (map stop_when \<circ> nodes) (player (snd (onVisibilityChange False
        ((new_App ''digit'' ''digit'' ''default'' None :: unit App)
           \<lparr>state := RUNNING,
            player := Some (play ''C4'' None (new_AudioPlayer None)),
            keyboard := \<lparr>keys = [''KeyA'' \<mapsto> True], held = [(''KeyA'', True)]\<rparr>\<rparr>))))
       = Some [Some (3 / 10)]
   \<and> held (keyboard (snd (onVisibilityChange False
        ((new_App ''digit'' ''digit'' ''default'' None :: unit App)
           \<lparr>state := RUNNING,
            player := Some (play ''C4'' None (new_AudioPlayer None)),
            keyboard := \<lparr>keys = [''KeyA'' \<mapsto> True], held = [(''KeyA'', True)]\<rparr>\<rparr>)))) = []"
proof -
  let ?p = "play ''C4'' (None :: unit sample option) (new_AudioPlayer None)"
  let ?kb = "\<lparr>keys = [''KeyA'' \<mapsto> True], held = [(''KeyA'', True)]\<rparr>"
  let ?app = "(new_App ''digit'' ''digit'' ''default'' None :: unit App)
      \<lparr>state := RUNNING, player := Some ?p, keyboard := ?kb\<rparr>"
  have p: "?p = \<lparr>currentTime = 0, gain = 10,
                 nodes = [\<lparr>node_id = ''C4'', node_buffer = None, start_when = 0, stop_when = None\<rparr>],
                 sources = [(''C4'', 0)], stopDelay = 3 / 10\<rparr>"
    by (simp add: play_def new_AudioPlayer_def)
  have s: "state ?app = RUNNING"
    by simp
  have pl: "player ?app = Some ?p"
    by simp
  have ok: "player_ok ?p"
    by (simp add: p player_ok_def)
  have kb: "keyboard_ok (keyboard ?app)"
    by (auto simp: keyboard_ok_def)
  have kb': "keyboard_ok ?kb"
    by (auto simp: keyboard_ok_def)
  from visibility_loss [OF s pl ok kb, of ?app True]
  have "onVisibilityChange False ?app =
           (None,
            ?app\<lparr>player := Some (?p\<lparr>nodes :=
                      map (\<lambda>v. if stop_when v = None
                                then stopped_at (currentTime ?p + stopDelay ?p) v else v) (nodes ?p),
                    sources := []\<rparr>),
                keyboard := (keyboard ?app)
                   \<lparr>keys := fold (\<lambda>c m. m(c \<mapsto> False)) (map fst (held (keyboard ?app)))
                              (keys (keyboard ?app)),
                    held := []\<rparr>\<rparr>)"
    by (rule conjunct1)
  then have "fst (onVisibilityChange False ?app) = None"
    and "map_option sources (player (snd (onVisibilityChange False ?app))) = Some []"
    and "map_option (map stop_when \<circ> nodes) (player (snd (onVisibilityChange False ?app)))
         = Some [Some (3 / 10)]"
    and "held (keyboard (snd (onVisibilityChange False ?app))) = []"
    by (simp_all add: p stopped_at_def)
  with s ok kb' show ?thesis
    by (simp only: simp_thms)
qed

section \<open>Properties of the event handlers\<close>




lemma note_text_keyboard [simp]: "note_text (app\<lparr>keyboard := kb\<rparr>) note = note_text app note"
  by (simp add: note_text_def split: option.splits)








lemma play_fields [simp]:
  "stopDelay (play nid b p) = stopDelay p" "currentTime (play nid b p) = currentTime p"
  by (simp_all add: play_def)


section \<open>Claims about the event handlers\<close>







section \<open>Properties of loading\<close>

lemma createKeys_codesNotes [simp]:
  "createKeys (app\<lparr>codesNotes := m\<rparr>) ks kb = createKeys app ks kb"
  by (induction ks arbitrary: kb) auto

lemma createKeys_ok:
  assumes "json (codesChars app) \<noteq> None"
    and "params_display app = ''digit'' \<longrightarrow> json (notesDigits app) \<noteq> None"
  shows "fst (createKeys app ks kb) = None"
  using assms by (induction ks arbitrary: kb) auto

lemma onAssetsLoaded_ok:
  assumes "map_option json (keyboardLayouts app (params_layout app)) = Some (Some rows)"
    and "json (codesChars app) \<noteq> None"
    and "params_display app = ''digit'' \<longrightarrow> json (notesDigits app) \<noteq> None"
  shows "fst (onAssetsLoaded app) = None" and "state (snd (onAssetsLoaded app)) = RUNNING"
proof -
  from assms(1) obtain a where a: "keyboardLayouts app (params_layout app) = Some a"
    "json a = Some rows"
    by auto
  let ?m = "fold (\<lambda>(c, note) m. m(c \<mapsto> note)) (concat rows) Map.empty"
  have u: "updateKeyboardLayout app = (None, app\<lparr>codesNotes := ?m\<rparr>)"
    by (simp add: updateKeyboardLayout_def a)
  obtain kb where kb: "createKeys app (concat rows) (keyboard app) = (None, kb)"
    using createKeys_ok [OF assms(2,3), of "concat rows" "keyboard app"]
    by (cases "createKeys app (concat rows) (keyboard app)") simp
  have r: "render (app\<lparr>codesNotes := ?m\<rparr>) =
           (None, app\<lparr>codesNotes := ?m, keyboard := kb,
                      logger := log_render (params_output app) (logger app)\<rparr>)"
    by (simp add: render_def Keyboard_render_def a kb)
  show "fst (onAssetsLoaded app) = None" and "state (snd (onAssetsLoaded app)) = RUNNING"
    by (simp_all add: onAssetsLoaded_def u r)
qed

lemma AudioAsset_failed:
  assumes "fetchJSON r = Inl e"
  shows "AudioAsset_loadAsync r app =
           app\<lparr>notesBuffers := (notesBuffers app)\<lparr>error := Some e, promise := Some Fulfilled\<rparr>,
               errorText := Some e\<rparr>"
  using assms by (simp add: AudioAsset_loadAsync_def onError_def)

lemma onAssetsLoaded_bank: "notesBuffers (snd (onAssetsLoaded app)) = notesBuffers app"
  by (auto simp: onAssetsLoaded_def updateKeyboardLayout_def render_def Keyboard_render_def Let_def
        split: option.splits prod.splits)

text \<open>Whatever the manifest, the promise of \<open>loadAsync\<close> is fulfilled with every entry
  of the bank still encoded and every timer still to fire.\<close>

lemma AudioAsset_loaded:
  assumes "fetchJSON r = Inr manifest"
  shows "promise (notesBuffers (AudioAsset_loadAsync r app)) = Some Fulfilled"
    and "json (notesBuffers (AudioAsset_loadAsync r app)) =
           Some (map (\<lambda>(k, s). (k, Encoded s)) manifest)"
    and "timers (AudioAsset_loadAsync r app) =
           timers app @ map (\<lambda>(k, s). (k, drop OGG_HEADER_LENGTH s)) manifest"
    and "decoding (AudioAsset_loadAsync r app) = decoding app"
  using assms by (simp_all add: AudioAsset_loadAsync_def onLoad_def)

section \<open>Claims about loading\<close>

text \<open>
  C2, as the code has it. When the fetch of the sample manifest fails (a response that
  is not ok, no response, or a body that is not JSON), the \<open>catch\<close> callback of
  \<open>loadAsync\<close> records the error on the asset and \<open>onError\<close> shows it; the callback
  returns normally, so the promise of \<open>loadAsync\<close> is fulfilled, not rejected. The state
  of the application is not changed by this. As long as another asset is pending the
  application stays as the callbacks left it, in the state \<open>LOADING\<close>; when the manifest
  was the last asset pending, the callback of \<open>start\<close> runs and, the selected layout and
  the label tables being loaded, takes the application to \<open>RUNNING\<close>.
\<close>

theorem manifest_fetch_failure:
  assumes "fetchJSON r = Inl e"
  shows "error (notesBuffers (AudioAsset_loadAsync r app)) = Some e
       \<and> errorText (AudioAsset_loadAsync r app) = Some e
       \<and> promise (notesBuffers (AudioAsset_loadAsync r app)) = Some Fulfilled
       \<and> json (notesBuffers (AudioAsset_loadAsync r app)) = json (notesBuffers app)
       \<and> state (AudioAsset_loadAsync r app) = state app
       \<and> (\<not> all_fulfilled (AudioAsset_loadAsync r app) \<longrightarrow>
            notesBuffers_fetched r app = (None, AudioAsset_loadAsync r app))
       \<and> (all_fulfilled (AudioAsset_loadAsync r app)
            \<and> map_option json (keyboardLayouts app (params_layout app)) = Some (Some rows)
            \<and> json (codesChars app) \<noteq> None
            \<and> (params_display app = ''digit'' \<longrightarrow> json (notesDigits app) \<noteq> None)
          \<longrightarrow> fst (notesBuffers_fetched r app) = None
              \<and> state (snd (notesBuffers_fetched r app)) = RUNNING)
       \<and> fetchJSON (Response False status body :: (string \<times> string) list response)
            = Inl (HttpStatus status)
       \<and> fetchJSON (NoResponse :: (string \<times> string) list response) = Inl NetworkError"
proof -
  let ?app = "AudioAsset_loadAsync r app"
  note f = AudioAsset_failed [OF assms, of app]
  have pending: "\<not> all_fulfilled ?app \<longrightarrow> notesBuffers_fetched r app = (None, ?app)"
    by (simp add: notesBuffers_fetched_def after_settle_def)
  have final: "all_fulfilled ?app
            \<and> map_option json (keyboardLayouts app (params_layout app)) = Some (Some rows)
            \<and> json (codesChars app) \<noteq> None
            \<and> (params_display app = ''digit'' \<longrightarrow> json (notesDigits app) \<noteq> None)
          \<longrightarrow> fst (notesBuffers_fetched r app) = None
              \<and> state (snd (notesBuffers_fetched r app)) = RUNNING"
  proof
    assume h: "all_fulfilled ?app
            \<and> map_option json (keyboardLayouts app (params_layout app)) = Some (Some rows)
            \<and> json (codesChars app) \<noteq> None
            \<and> (params_display app = ''digit'' \<longrightarrow> json (notesDigits app) \<noteq> None)"
    then have eq: "notesBuffers_fetched r app = onAssetsLoaded ?app"
      by (simp add: notesBuffers_fetched_def after_settle_def)
    from h have "map_option json (keyboardLayouts ?app (params_layout ?app)) = Some (Some rows)"
      and "json (codesChars ?app) \<noteq> None"
      and "params_display ?app = ''digit'' \<longrightarrow> json (notesDigits ?app) \<noteq> None"
      by (simp_all add: f)
    from onAssetsLoaded_ok [OF this] show "fst (notesBuffers_fetched r app) = None
              \<and> state (snd (notesBuffers_fetched r app)) = RUNNING"
      by (simp add: eq)
  qed
  have "error (notesBuffers ?app) = Some e" "errorText ?app = Some e"
    "promise (notesBuffers ?app) = Some Fulfilled"
    "json (notesBuffers ?app) = json (notesBuffers app)" "state ?app = state app"
    by (simp_all add: f)
  moreover have "fetchJSON (Response False status body :: (string \<times> string) list response)
            = Inl (HttpStatus status)"
    "fetchJSON (NoResponse :: (string \<times> string) list response) = Inl NetworkError"
    by (simp_all add: fetchJSON_def)
  ultimately show ?thesis
    using pending final by (intro conjI)
qed

theorem manifest_fetch_failure_witness:
  "fetchJSON (Response False 404 None :: (string \<times> string) list response) = Inl (HttpStatus 404)
   \<and> all_fulfilled (AudioAsset_loadAsync (Response False 404 None)
        (run_events (Click # other_assets_fetched) (new_App ''digit'' ''digit'' ''default'' None)))
   \<and> map_option json
        (keyboardLayouts
           (run_events (Click # other_assets_fetched) (new_App ''digit'' ''digit'' ''default'' None))
           ''default'') = Some (Some [[(''KeyA'', ''C4'')]])
   \<and> error (notesBuffers (AudioAsset_loadAsync (Response False 404 None)
        (run_events (Click # other_assets_fetched) (new_App ''digit'' ''digit'' ''default'' None))))
       = Some (HttpStatus 404)
   \<and> promise (notesBuffers (AudioAsset_loadAsync (Response False 404 None)
        (run_events (Click # other_assets_fetched) (new_App ''digit'' ''digit'' ''default'' None))))
       = Some Fulfilled
   \<and> state (snd (notesBuffers_fetched (Response False 404 None)
        (run_events (Click # other_assets_fetched) (new_App ''digit'' ''digit'' ''default'' None))))
       = RUNNING"
proof -
  let ?r = "Response False 404 None :: (string \<times> string) list response"
  let ?app = "run_events (Click # other_assets_fetched)
                (new_App ''digit'' ''digit'' ''default'' None)"
  have r: "fetchJSON ?r = Inl (HttpStatus 404)"
    by (simp add: fetchJSON_def)
  have all: "all_fulfilled (AudioAsset_loadAsync ?r ?app)"
    by code_simp
  have l: "params_layout ?app = ''default''"
    by code_simp
  have rows: "map_option json (keyboardLayouts ?app ''default'') = Some (Some [[(''KeyA'', ''C4'')]])"
    by code_simp
  have "map_option (\<lambda>m. m ''KeyA'') (json (codesChars ?app)) = Some (Some ''A'')"
    by code_simp
  then have chars: "json (codesChars ?app) \<noteq> None"
    by auto
  have "map_option (\<lambda>m. m ''C4'') (json (notesDigits ?app)) = Some (Some ''1'')"
    by code_simp
  then have digits: "json (notesDigits ?app) \<noteq> None"
    by auto
  note m = manifest_fetch_failure [OF r, of ?app "[[(''KeyA'', ''C4'')]]" 404 None]
  from m have "error (notesBuffers (AudioAsset_loadAsync ?r ?app)) = Some (HttpStatus 404)"
    and "promise (notesBuffers (AudioAsset_loadAsync ?r ?app)) = Some Fulfilled"
    by blast+
  moreover from m all rows chars digits l
  have "state (snd (notesBuffers_fetched ?r ?app)) = RUNNING"
    by simp
  ultimately show ?thesis
    using r all rows by (simp only: simp_thms)
qed

text \<open>
  The claim C2 as it is worded has the load reject and the application stay in
  \<open>LOADING\<close> for ever. With a manifest fetch answered by status 404 and the eight other
  assets fetched, the promise of \<open>loadAsync\<close> is fulfilled, the error is on the asset,
  and the application is in the state \<open>RUNNING\<close>.
\<close>

theorem manifest_404_counterexample:
  "promise (notesBuffers (run_events [Click, NotesBuffersFetched (Response False 404 None)]
      (new_App ''digit'' ''digit'' ''default'' None :: unit App))) = Some Fulfilled
   \<and> error (notesBuffers (run_events [Click, NotesBuffersFetched (Response False 404 None)]
      (new_App ''digit'' ''digit'' ''default'' None :: unit App))) = Some (HttpStatus 404)
   \<and> state (run_events [Click, NotesBuffersFetched (Response False 404 None)]
      (new_App ''digit'' ''digit'' ''default'' None :: unit App)) = LOADING
   \<and> state (run_events ([Click, NotesBuffersFetched (Response False 404 None)]
        @ other_assets_fetched)
      (new_App ''digit'' ''digit'' ''default'' None)) = RUNNING"
  by code_simp

text \<open>
  C1 on the code. Whatever manifest the fetch delivers, the promise of \<open>loadAsync\<close> is
  fulfilled in the task that handles the answer, with every bank entry still the encoded
  string and every timer of \<open>decodeAsync\<close> still pending: the two-stage decode of no
  entry has even begun. The bank is in the same condition at the end of that task, and
  when the manifest was the last asset pending the application is by then in the state
  \<open>RUNNING\<close>. The decoded buffers replace the strings only in later tasks, once the
  timers have fired and \<open>decodeAudioData\<close> has answered.
\<close>

theorem load_fulfilled_before_decode:
  assumes "fetchJSON r = Inr manifest"
  shows "promise (notesBuffers (AudioAsset_loadAsync r app)) = Some Fulfilled
       \<and> json (notesBuffers (AudioAsset_loadAsync r app)) =
           Some (map (\<lambda>(k, s). (k, Encoded s)) manifest)
       \<and> timers (AudioAsset_loadAsync r app) =
           timers app @ map (\<lambda>(k, s). (k, drop OGG_HEADER_LENGTH s)) manifest
       \<and> json (notesBuffers (snd (notesBuffers_fetched r app))) =
           Some (map (\<lambda>(k, s). (k, Encoded s)) manifest)
       \<and> (all_fulfilled (AudioAsset_loadAsync r app)
            \<and> map_option json (keyboardLayouts app (params_layout app)) = Some (Some rows)
            \<and> json (codesChars app) \<noteq> None
            \<and> (params_display app = ''digit'' \<longrightarrow> json (notesDigits app) \<noteq> None)
          \<longrightarrow> state (snd (notesBuffers_fetched r app)) = RUNNING)"
proof -
  let ?app = "AudioAsset_loadAsync r app"
  note l = AudioAsset_loaded [OF assms, of app]
  have same: "keyboardLayouts ?app = keyboardLayouts app" "params_layout ?app = params_layout app"
    "codesChars ?app = codesChars app" "params_display ?app = params_display app"
    "notesDigits ?app = notesDigits app"
    using assms by (simp_all add: AudioAsset_loadAsync_def onLoad_def)
  have bank: "json (notesBuffers (snd (notesBuffers_fetched r app))) =
           Some (map (\<lambda>(k, s). (k, Encoded s)) manifest)"
    by (simp add: notesBuffers_fetched_def after_settle_def onAssetsLoaded_bank l(2))
  have run: "all_fulfilled ?app
            \<and> map_option json (keyboardLayouts app (params_layout app)) = Some (Some rows)
            \<and> json (codesChars app) \<noteq> None
            \<and> (params_display app = ''digit'' \<longrightarrow> json (notesDigits app) \<noteq> None)
          \<longrightarrow> state (snd (notesBuffers_fetched r app)) = RUNNING"
  proof
    assume h: "all_fulfilled ?app
            \<and> map_option json (keyboardLayouts app (params_layout app)) = Some (Some rows)
            \<and> json (codesChars app) \<noteq> None
            \<and> (params_display app = ''digit'' \<longrightarrow> json (notesDigits app) \<noteq> None)"
    then have eq: "notesBuffers_fetched r app = onAssetsLoaded ?app"
      by (simp add: notesBuffers_fetched_def after_settle_def)
    from h have "map_option json (keyboardLayouts ?app (params_layout ?app)) = Some (Some rows)"
      and "json (codesChars ?app) \<noteq> None"
      and "params_display ?app = ''digit'' \<longrightarrow> json (notesDigits ?app) \<noteq> None"
      by (simp_all add: same)
    from onAssetsLoaded_ok(2) [OF this] show "state (snd (notesBuffers_fetched r app)) = RUNNING"
      by (simp add: eq)
  qed
  from l(1,2,3) bank run show ?thesis
    by (intro conjI)
qed

theorem load_fulfilled_before_decode_witness:
  "fetchJSON (Response True 200 (Some example_manifest)) = Inr example_manifest
   \<and> promise (notesBuffers (run_events
        [Click, NotesBuffersFetched (Response True 200 (Some example_manifest))]
        (new_App ''digit'' ''digit'' ''default'' None :: unit App))) = Some Fulfilled
   \<and> json (notesBuffers (run_events
        [Click, NotesBuffersFetched (Response True 200 (Some example_manifest))]
        (new_App ''digit'' ''digit'' ''default'' None :: unit App)))
       = Some [(''C4'', Encoded ''data:audio/ogg;base64,AAAA''),
               (''D4'', Encoded ''data:audio/ogg;base64,AAAA'')]
   \<and> timers (run_events
        [Click, NotesBuffersFetched (Response True 200 (Some example_manifest))]
        (new_App ''digit'' ''digit'' ''default'' None :: unit App))
       = [(''C4'', ''AAAA''), (''D4'', ''AAAA'')]
   \<and> state (run_events
        (Click # other_assets_fetched
           @ [NotesBuffersFetched (Response True 200 (Some example_manifest))])
        (new_App ''digit'' ''digit'' ''default'' None)) = RUNNING
   \<and> json (notesBuffers (run_events
        (Click # other_assets_fetched
           @ [NotesBuffersFetched (Response True 200 (Some example_manifest))])
        (new_App ''digit'' ''digit'' ''default'' None)))
       = Some [(''C4'', Encoded ''data:audio/ogg;base64,AAAA''),
               (''D4'', Encoded ''data:audio/ogg;base64,AAAA'')]
   \<and> json (notesBuffers (run_events
        [Click, NotesBuffersFetched (Response True 200 (Some example_manifest)),
         TimerFired, TimerFired, AudioDecoded ''D4'' (Some ()), AudioDecoded ''C4'' (Some ())]
        (new_App ''digit'' ''digit'' ''default'' None)))
       = Some [(''C4'', Decoded ()), (''D4'', Decoded ())]"
proof -
  let ?r = "Response True 200 (Some example_manifest)"
  let ?new = "new_App ''digit'' ''digit'' ''default'' None :: unit App"
  let ?app = "run_events (Click # other_assets_fetched) ?new"
  let ?bank = "Some [(''C4'', Encoded ''data:audio/ogg;base64,AAAA''),
                     (''D4'', Encoded ''data:audio/ogg;base64,AAAA'')] ::
               (string \<times> unit sample) list option"
  have r: "fetchJSON ?r = Inr example_manifest"
    by (simp add: fetchJSON_def)
  have enc: "map (\<lambda>(k, s). (k, Encoded s)) example_manifest =
      [(''C4'', Encoded ''data:audio/ogg;base64,AAAA''),
       (''D4'', Encoded ''data:audio/ogg;base64,AAAA'') :: string \<times> unit sample]"
    by (simp add: example_manifest_def)
  have early: "run_events [Click, NotesBuffersFetched ?r] ?new
        = snd (notesBuffers_fetched ?r (start ?new))"
    by (simp add: run_events_def)
  have nf: "\<not> all_fulfilled (AudioAsset_loadAsync ?r (start ?new))"
    by code_simp
  then have early': "run_events [Click, NotesBuffersFetched ?r] ?new
        = AudioAsset_loadAsync ?r (start ?new)"
    by (simp add: early notesBuffers_fetched_def after_settle_def)
  have late: "run_events (Click # other_assets_fetched @ [NotesBuffersFetched ?r]) ?new
        = snd (notesBuffers_fetched ?r ?app)"
    by (simp add: run_events_def)
  have all: "all_fulfilled (AudioAsset_loadAsync ?r ?app)"
    by code_simp
  have l: "params_layout ?app = ''default''"
    by code_simp
  have rows: "map_option json (keyboardLayouts ?app ''default'') = Some (Some [[(''KeyA'', ''C4'')]])"
    by code_simp
  have "map_option (\<lambda>m. m ''KeyA'') (json (codesChars ?app)) = Some (Some ''A'')"
    by code_simp
  then have chars: "json (codesChars ?app) \<noteq> None"
    by auto
  have "map_option (\<lambda>m. m ''C4'') (json (notesDigits ?app)) = Some (Some ''1'')"
    by code_simp
  then have digits: "json (notesDigits ?app) \<noteq> None"
    by auto
  note a = load_fulfilled_before_decode [OF r, of "start ?new" "[[(''KeyA'', ''C4'')]]"]
  note b = load_fulfilled_before_decode [OF r, of ?app "[[(''KeyA'', ''C4'')]]"]
  have 1: "promise (notesBuffers (run_events [Click, NotesBuffersFetched ?r] ?new)) = Some Fulfilled"
    using a by (simp add: early')
  have 2: "json (notesBuffers (run_events [Click, NotesBuffersFetched ?r] ?new)) = ?bank"
    using a by (simp add: early' enc)
  have "timers (start ?new) = []"
    by code_simp
  moreover from a have "timers (AudioAsset_loadAsync ?r (start ?new)) =
      timers (start ?new) @ map (\<lambda>(k, s). (k, drop OGG_HEADER_LENGTH s)) example_manifest"
    by blast
  ultimately have "timers (AudioAsset_loadAsync ?r (start ?new))
       = [(''C4'', ''AAAA''), (''D4'', ''AAAA'')]"
    by (simp add: example_manifest_def OGG_HEADER_LENGTH_def)
  then have 3: "timers (run_events [Click, NotesBuffersFetched ?r] ?new)
       = [(''C4'', ''AAAA''), (''D4'', ''AAAA'')]"
    by (simp only: early')
  have 4: "state (run_events (Click # other_assets_fetched @ [NotesBuffersFetched ?r]) ?new)
       = RUNNING"
    using b all rows chars digits l by (simp add: late)
  have 5: "json (notesBuffers (run_events
        (Click # other_assets_fetched @ [NotesBuffersFetched ?r]) ?new)) = ?bank"
    using b by (simp add: late enc)
  have 6: "json (notesBuffers (run_events
        [Click, NotesBuffersFetched ?r,
         TimerFired, TimerFired, AudioDecoded ''D4'' (Some ()), AudioDecoded ''C4'' (Some ())]
        ?new))
       = Some [(''C4'', Decoded ()), (''D4'', Decoded ())]"
    by code_simp
  from r 1 2 3 4 5 6 show ?thesis
    by (intro conjI)
qed

end
